theory Spec2Isabelle
  imports Complex_Main "HOL-Library.Signed_Division" "HOL-Library.Sublist"
begin

section \<open>Result extractor (search.go)\<close>

text \<open>
  Go strings are byte sequences; they are modelled as \<open>string\<close> (a list of 8-bit
  characters), so \<open>length\<close> is Go's \<open>len\<close>.

  A value of Go's \<open>interface{}\<close> produced by \<open>json.Unmarshal\<close> is \<open>nil\<close>, a
  \<open>bool\<close>, a \<open>float64\<close>, a \<open>string\<close>, a \<open>[]interface{}\<close> or a
  \<open>map[string]interface{}\<close>. The number type is left as a type parameter: no
  function of the extractor inspects a number. A Go map is an association list read
  with \<open>map_of\<close>; indexing a map at an absent key yields \<open>nil\<close>, as in Go.
\<close>

datatype 'n json =
    JNull
  | JBool bool
  | JNum 'n
  | JStr string
  | JArr "'n json list"
  | JObj "(string \<times> 'n json) list"

definition mapIndex :: "(string \<times> 'n json) list \<Rightarrow> string \<Rightarrow> 'n json" where
  "mapIndex m key = (case map_of m key of None \<Rightarrow> JNull | Some v \<Rightarrow> v)"

record SearchResult =
  VideoID :: string
  Title :: string
  Channel :: string
  Duration :: string
  Thumbnail :: string

text \<open>
  The two error returns of \<open>parseYouTubeResults\<close>: \<open>ExtractionError\<close> is
  "could not find video data in response", \<open>ParseError\<close> is
  "failed to parse video data: ...". \<open>IndexPanic\<close> is the run-time panic of a
  slice index out of range.
\<close>

datatype search_error = ExtractionError | ParseError | IndexPanic

subsection \<open>The two marker patterns\<close>

text \<open>
  \<open>stripPrefix p s\<close> matches the literal \<open>p\<close> at the start of \<open>s\<close> and returns
  what follows it.
\<close>

fun stripPrefix :: "string \<Rightarrow> string \<Rightarrow> string option" where
  "stripPrefix [] s = Some s"
| "stripPrefix (p # ps) [] = None"
| "stripPrefix (p # ps) (c # cs) = (if p = c then stripPrefix ps cs else None)"

text \<open>
  The tail \<open>.*?});\<close> of both patterns: the lazy star takes the fewest characters,
  none of them a newline (\<open>.\<close> does not match \<open>\n\<close>), so that \<open>};\<close> follows.
  The argument is the text after the opening brace; the result is what \<open>.*?\<close>
  matched.
\<close>

fun lazyBody :: "string \<Rightarrow> string option" where
  "lazyBody [] = None"
| "lazyBody (c # cs) =
     (case stripPrefix ''};'' (c # cs) of
        Some _ \<Rightarrow> Some []
      | None \<Rightarrow>
          if c = CHR 0x0A then None
          else (case lazyBody cs of None \<Rightarrow> None | Some b \<Rightarrow> Some (c # b)))"

text \<open>The class \<open>\s\<close> of Go's regexp syntax is \<open>[\t\n\f\r ]\<close>.\<close>

definition isRegexpSpace :: "char \<Rightarrow> bool" where
  "isRegexpSpace c \<longleftrightarrow>
     c = CHR 0x09 \<or> c = CHR 0x0A \<or> c = CHR 0x0C \<or> c = CHR 0x0D \<or> c = CHR 0x20"

text \<open>
  A match of \<open>var ytInitialData = ({.*?});\<close> that starts at the head of the text.
  The result is the slice \<open>FindStringSubmatch\<close> returns: the whole match, then
  the group.
\<close>

definition matchHere1 :: "string \<Rightarrow> string list option" where
  "matchHere1 s =
     (case stripPrefix ''var ytInitialData = {'' s of
        None \<Rightarrow> None
      | Some rest \<Rightarrow>
          (case lazyBody rest of
             None \<Rightarrow> None
           | Some b \<Rightarrow>
               Some [''var ytInitialData = {'' @ b @ ''};'', ''{'' @ b @ ''}'']))"

text \<open>
  A match of \<open>ytInitialData\s*=\s*({.*?});\<close> at the head of the text. Each
  \<open>\s*\<close> is greedy and is followed by a character that is no space, so it takes
  the whole run of spaces.
\<close>

definition matchHere2 :: "string \<Rightarrow> string list option" where
  "matchHere2 s =
     (case stripPrefix ''ytInitialData'' s of
        None \<Rightarrow> None
      | Some r1 \<Rightarrow>
          (case stripPrefix ''='' (dropWhile isRegexpSpace r1) of
             None \<Rightarrow> None
           | Some r2 \<Rightarrow>
               (case stripPrefix ''{'' (dropWhile isRegexpSpace r2) of
                  None \<Rightarrow> None
                | Some rest \<Rightarrow>
                    (case lazyBody rest of
                       None \<Rightarrow> None
                     | Some b \<Rightarrow>
                         Some [''ytInitialData'' @ takeWhile isRegexpSpace r1 @ ''=''
                                 @ takeWhile isRegexpSpace r2 @ ''{'' @ b @ ''};'',
                               ''{'' @ b @ ''}'']))))"

text \<open>
  \<open>FindStringSubmatch\<close>: the leftmost match; \<open>nil\<close> (the empty slice) when the
  pattern matches nowhere. Neither pattern matches the empty text.
\<close>

fun FindStringSubmatch :: "(string \<Rightarrow> string list option) \<Rightarrow> string \<Rightarrow> string list" where
  "FindStringSubmatch matchHere [] = []"
| "FindStringSubmatch matchHere (c # cs) =
     (case matchHere (c # cs) of
        Some m \<Rightarrow> m
      | None \<Rightarrow> FindStringSubmatch matchHere cs)"

subsection \<open>Walking the decoded tree\<close>

fun navigateJSON :: "'n json \<Rightarrow> string list \<Rightarrow> 'n json" where
  "navigateJSON current [] = current"
| "navigateJSON current (key # keys) =
     (case current of
        JObj m \<Rightarrow> navigateJSON (mapIndex m key) keys
      | _ \<Rightarrow> JNull)"

text \<open>
  The text of the first run of a runs array, the shape read for the title and for the
  channel name: \<open>v.(map)["runs"].([]interface{})[0].(map)["text"].(string)\<close>, each
  step checked.
\<close>

definition firstRunText :: "'n json \<Rightarrow> string option" where
  "firstRunText v =
     (case v of
        JObj t \<Rightarrow>
          (case mapIndex t ''runs'' of
             JArr (r # _) \<Rightarrow>
               (case r of
                  JObj run \<Rightarrow>
                    (case mapIndex run ''text'' of JStr text \<Rightarrow> Some text | _ \<Rightarrow> None)
                | _ \<Rightarrow> None)
           | _ \<Rightarrow> None)
      | _ \<Rightarrow> None)"

definition simpleTextOf :: "'n json \<Rightarrow> string option" where
  "simpleTextOf v =
     (case v of
        JObj lengthText \<Rightarrow>
          (case mapIndex lengthText ''simpleText'' of JStr t \<Rightarrow> Some t | _ \<Rightarrow> None)
      | _ \<Rightarrow> None)"

definition extractVideoInfo :: "(string \<times> 'n json) list \<Rightarrow> SearchResult" where
  "extractVideoInfo renderer =
     (let result = \<lparr>VideoID = [], Title = [], Channel = [], Duration = [], Thumbnail = []\<rparr>;
          result = (case mapIndex renderer ''videoId'' of
                      JStr videoID \<Rightarrow> result\<lparr>VideoID := videoID\<rparr>
                    | _ \<Rightarrow> result);
          result = (case firstRunText (mapIndex renderer ''title'') of
                      Some text \<Rightarrow> result\<lparr>Title := text\<rparr>
                    | None \<Rightarrow> result);
          result = (case firstRunText (mapIndex renderer ''ownerText'') of
                      Some text \<Rightarrow> result\<lparr>Channel := text\<rparr>
                    | None \<Rightarrow> result);
          result = (case simpleTextOf (mapIndex renderer ''lengthText'') of
                      Some t \<Rightarrow> result\<lparr>Duration := t\<rparr>
                    | None \<Rightarrow> result)
      in result)"

text \<open>
  The inner loop over the items of one section. \<open>Inl\<close> is the early
  \<open>return results, nil\<close> at ten results; \<open>Inr\<close> is the end of the loop, with the
  results gathered so far.
\<close>

fun itemsLoop :: "'n json list \<Rightarrow> SearchResult list \<Rightarrow> SearchResult list + SearchResult list" where
  "itemsLoop [] results = Inr results"
| "itemsLoop (item # items) results =
     (case item of
        JObj itemMap \<Rightarrow>
          (case mapIndex itemMap ''videoRenderer'' of
             JObj videoRenderer \<Rightarrow>
               (let result = extractVideoInfo videoRenderer in
                if VideoID result \<noteq> [] then
                  (let results' = results @ [result] in
                   if length results' \<ge> 10 then Inl results'
                   else itemsLoop items results')
                else itemsLoop items results)
           | _ \<Rightarrow> itemsLoop items results)
      | _ \<Rightarrow> itemsLoop items results)"

text \<open>The outer loop over the sections.\<close>

fun sectionsLoop :: "'n json list \<Rightarrow> SearchResult list \<Rightarrow> SearchResult list" where
  "sectionsLoop [] results = results"
| "sectionsLoop (section # sections) results =
     (case section of
        JObj sectionMap \<Rightarrow>
          (case mapIndex sectionMap ''itemSectionRenderer'' of
             JObj itemRendererMap \<Rightarrow>
               (case mapIndex itemRendererMap ''contents'' of
                  JArr items \<Rightarrow>
                    (case itemsLoop items results of
                       Inl r \<Rightarrow> r
                     | Inr r \<Rightarrow> sectionsLoop sections r)
                | _ \<Rightarrow> sectionsLoop sections results)
           | _ \<Rightarrow> sectionsLoop sections results)
      | _ \<Rightarrow> sectionsLoop sections results)"

text \<open>A slice index \<open>xs[i]\<close>: \<open>None\<close> is the panic out of range.\<close>

definition sliceIndex :: "'a list \<Rightarrow> nat \<Rightarrow> 'a option" where
  "sliceIndex xs i = (if i < length xs then Some (xs ! i) else None)"

definition contentsPath :: "string list" where
  "contentsPath = [''contents'', ''twoColumnSearchResultsRenderer'', ''primaryContents'',
                   ''sectionListRenderer'', ''contents'']"

text \<open>
  \<open>parseYouTubeResults\<close> from the decoded map on (the part after
  \<open>json.Unmarshal\<close>).
\<close>

definition collectResults :: "(string \<times> 'n json) list \<Rightarrow> SearchResult list" where
  "collectResults data =
     (case navigateJSON (JObj data) contentsPath of
        JArr contentsList \<Rightarrow> sectionsLoop contentsList []
      | _ \<Rightarrow> [])"

text \<open>
  \<open>json.Unmarshal\<close> into a \<open>map[string]interface{}\<close> belongs to Go's library
  and is the parameter \<open>unmarshal\<close>: \<open>None\<close> is its error, \<open>Some data\<close> the
  decoded map. \<open>decodeAndCollect\<close> is \<open>parseYouTubeResults\<close> from the call of
  \<open>json.Unmarshal\<close> on.
\<close>

definition decodeAndCollect ::
  "(string \<Rightarrow> (string \<times> 'n json) list option) \<Rightarrow> string \<Rightarrow> search_error + SearchResult list" where
  "decodeAndCollect unmarshal block =
     (case unmarshal block of
        None \<Rightarrow> Inl ParseError
      | Some data \<Rightarrow> Inr (collectResults data))"

definition parseYouTubeResults ::
  "(string \<Rightarrow> (string \<times> 'n json) list option) \<Rightarrow> string \<Rightarrow> search_error + SearchResult list" where
  "parseYouTubeResults unmarshal html =
     (let matches = FindStringSubmatch matchHere1 html;
          matches = (if length matches < 2 then FindStringSubmatch matchHere2 html
                     else matches)
      in if length matches < 2 then Inl ExtractionError
         else (case sliceIndex matches 1 of
                 None \<Rightarrow> Inl IndexPanic
               | Some block \<Rightarrow> decodeAndCollect unmarshal block))"

subsection \<open>Vocabulary of the specification for the extractor\<close>

text \<open>
  The items the walk reaches: the \<open>contents\<close> list of every section that is a map
  with a map under \<open>itemSectionRenderer\<close>.
\<close>

definition sectionItems :: "'n json \<Rightarrow> 'n json list" where
  "sectionItems section =
     (case section of
        JObj sectionMap \<Rightarrow>
          (case mapIndex sectionMap ''itemSectionRenderer'' of
             JObj itemRendererMap \<Rightarrow>
               (case mapIndex itemRendererMap ''contents'' of
                  JArr items \<Rightarrow> items
                | _ \<Rightarrow> [])
           | _ \<Rightarrow> [])
      | _ \<Rightarrow> [])"

definition allItems :: "'n json list \<Rightarrow> 'n json list" where
  "allItems contentsList = concat (map sectionItems contentsList)"

text \<open>A video item is an item tagged \<open>videoRenderer\<close>; its renderer is the tagged map.\<close>

definition rendererOf :: "'n json \<Rightarrow> (string \<times> 'n json) list option" where
  "rendererOf item =
     (case item of
        JObj itemMap \<Rightarrow>
          (case mapIndex itemMap ''videoRenderer'' of
             JObj videoRenderer \<Rightarrow> Some videoRenderer
           | _ \<Rightarrow> None)
      | _ \<Rightarrow> None)"

definition isVideoItem :: "'n json \<Rightarrow> bool" where
  "isVideoItem item \<longleftrightarrow> rendererOf item \<noteq> None"

text \<open>A video item carries an identifier when its \<open>videoId\<close> is a non-empty string.\<close>

definition hasIdentifier :: "'n json \<Rightarrow> bool" where
  "hasIdentifier item \<longleftrightarrow>
     (case rendererOf item of
        None \<Rightarrow> False
      | Some videoRenderer \<Rightarrow>
          (case mapIndex videoRenderer ''videoId'' of
             JStr videoID \<Rightarrow> videoID \<noteq> []
           | _ \<Rightarrow> False))"

definition resultOf :: "'n json \<Rightarrow> SearchResult" where
  "resultOf item = extractVideoInfo (case rendererOf item of Some r \<Rightarrow> r | None \<Rightarrow> [])"

text \<open>The list at the end of the fixed path; no sections when the path does not lead to a list.\<close>

definition isArr :: "'n json \<Rightarrow> bool" where
  "isArr v \<longleftrightarrow> (case v of JArr _ \<Rightarrow> True | _ \<Rightarrow> False)"

definition contentsOf :: "(string \<times> 'n json) list \<Rightarrow> 'n json list" where
  "contentsOf data =
     (case navigateJSON (JObj data) contentsPath of JArr contentsList \<Rightarrow> contentsList | _ \<Rightarrow> [])"

text \<open>The marker is found: one of the two patterns matches.\<close>

definition markerFound :: "string \<Rightarrow> bool" where
  "markerFound html \<longleftrightarrow>
     length (FindStringSubmatch matchHere1 html) \<ge> 2 \<or>
     length (FindStringSubmatch matchHere2 html) \<ge> 2"

text \<open>The data block handed to the decoder: the group of the pattern that matched.\<close>

definition dataBlock :: "string \<Rightarrow> string" where
  "dataBlock html =
     (if length (FindStringSubmatch matchHere1 html) \<ge> 2
      then FindStringSubmatch matchHere1 html ! 1
      else FindStringSubmatch matchHere2 html ! 1)"

subsection \<open>Example documents\<close>

text \<open>
  Three data blocks as decoded maps, each with the page that carries it. The first has
  two video items with identifiers around an advertisement; the second has one video
  item without an identifier; the third stops short of the fixed path.
\<close>

definition exampleTwoVideos :: "(string \<times> real json) list" where
  "exampleTwoVideos =
     [(''contents'', JObj [(''twoColumnSearchResultsRenderer'', JObj
      [(''primaryContents'', JObj [(''sectionListRenderer'', JObj [(''contents'', JArr
      [JObj [(''itemSectionRenderer'', JObj [(''contents'', JArr [JObj
      [(''videoRenderer'', JObj [(''videoId'', JStr ''abc''), (''title'', JObj
      [(''runs'', JArr [JObj [(''text'', JStr ''Song'')]])]), (''lengthText'', JObj
      [(''simpleText'', JStr ''3:05'')])])], JObj [(''adSlotRenderer'', JObj [])], JObj
      [(''videoRenderer'', JObj [(''videoId'', JStr ''xyz'')])]])])]])])])])])]"

definition exampleTwoVideosBlock :: string where
  "exampleTwoVideosBlock =
     ''{\"contents\":{\"twoColumnSearchResultsRenderer\":{\"primaryConte'' @
     ''nts\":{\"sectionListRenderer\":{\"contents\":[{\"itemSectionRender'' @
     ''er\":{\"contents\":[{\"videoRenderer\":{\"videoId\":\"abc\",\"title\":{'' @
     ''\"runs\":[{\"text\":\"Song\"}]},\"lengthText\":{\"simpleText\":\"3:05\"}'' @
     ''}},{\"adSlotRenderer\":{}},{\"videoRenderer\":{\"videoId\":\"xyz\"}}'' @
     '']}}]}}}}}''"

definition exampleTwoVideosPage :: string where
  "exampleTwoVideosPage = ''<script>var ytInitialData = '' @ exampleTwoVideosBlock @ '';</script>''"

definition exampleNoIdentifier :: "(string \<times> real json) list" where
  "exampleNoIdentifier =
     [(''contents'', JObj [(''twoColumnSearchResultsRenderer'', JObj
      [(''primaryContents'', JObj [(''sectionListRenderer'', JObj [(''contents'', JArr
      [JObj [(''itemSectionRenderer'', JObj [(''contents'', JArr [JObj
      [(''videoRenderer'', JObj [(''title'', JObj [(''runs'', JArr [JObj [(''text'',
      JStr ''Song'')]])])])]])])]])])])])])]"

definition exampleNoIdentifierBlock :: string where
  "exampleNoIdentifierBlock =
     ''{\"contents\":{\"twoColumnSearchResultsRenderer\":{\"primaryConte'' @
     ''nts\":{\"sectionListRenderer\":{\"contents\":[{\"itemSectionRender'' @
     ''er\":{\"contents\":[{\"videoRenderer\":{\"title\":{\"runs\":[{\"text\":'' @
     ''\"Song\"}]}}}]}}]}}}}}''"

definition exampleNoIdentifierPage :: string where
  "exampleNoIdentifierPage = ''<script>var ytInitialData = '' @ exampleNoIdentifierBlock @ '';</script>''"

definition exampleNoPath :: "(string \<times> real json) list" where
  "exampleNoPath =
     [(''contents'', JObj [(''twoColumnSearchResultsRenderer'', JObj [])])]"

definition exampleNoPathBlock :: string where
  "exampleNoPathBlock =
     ''{\"contents\":{\"twoColumnSearchResultsRenderer\":{}}}''"

definition exampleNoPathPage :: string where
  "exampleNoPathPage = ''<script>var ytInitialData = '' @ exampleNoPathBlock @ '';</script>''"

section \<open>Acquisition orchestrator (the downloader)\<close>

subsection \<open>Derived file names\<close>

text \<open>The character class \<open>[<>:"/\\|?*]\<close> of \<open>sanitizeFilename\<close>.\<close>

definition illegalChars :: "char list" where
  "illegalChars = [CHR ''<'', CHR ''>'', CHR '':'', CHR 0x22, CHR ''/'', CHR 0x5C,
                   CHR ''|'', CHR ''?'', CHR ''*'']"

text \<open>\<open>re.ReplaceAllString(name, "")\<close>: every match of the class is deleted.\<close>

definition removeIllegal :: "string \<Rightarrow> string" where
  "removeIllegal name = filter (\<lambda>c. c \<notin> set illegalChars) name"

text \<open>
  \<open>strings.TrimSpace\<close> removes the white space runes of Unicode
  (\<open>unicode.IsSpace\<close>) at both ends. On the bytes of a Go string these are the
  UTF-8 encodings of U+0009 to U+000D, U+0020, U+0085, U+00A0, U+1680, U+2000 to
  U+200A, U+2028, U+2029, U+202F, U+205F and U+3000. A byte sequence that is not valid
  UTF-8 decodes to U+FFFD, which is no white space, and stops the trimming.
\<close>

definition spaceEncodings :: "string list" where
  "spaceEncodings =
     [[CHR 0x09], [CHR 0x0A], [CHR 0x0B], [CHR 0x0C], [CHR 0x0D], [CHR 0x20],
      [CHR 0xC2, CHR 0x85], [CHR 0xC2, CHR 0xA0],
      [CHR 0xE1, CHR 0x9A, CHR 0x80],
      [CHR 0xE2, CHR 0x80, CHR 0x80], [CHR 0xE2, CHR 0x80, CHR 0x81],
      [CHR 0xE2, CHR 0x80, CHR 0x82], [CHR 0xE2, CHR 0x80, CHR 0x83],
      [CHR 0xE2, CHR 0x80, CHR 0x84], [CHR 0xE2, CHR 0x80, CHR 0x85],
      [CHR 0xE2, CHR 0x80, CHR 0x86], [CHR 0xE2, CHR 0x80, CHR 0x87],
      [CHR 0xE2, CHR 0x80, CHR 0x88], [CHR 0xE2, CHR 0x80, CHR 0x89],
      [CHR 0xE2, CHR 0x80, CHR 0x8A],
      [CHR 0xE2, CHR 0x80, CHR 0xA8], [CHR 0xE2, CHR 0x80, CHR 0xA9],
      [CHR 0xE2, CHR 0x80, CHR 0xAF],
      [CHR 0xE2, CHR 0x81, CHR 0x9F],
      [CHR 0xE3, CHR 0x80, CHR 0x80]]"

text \<open>The white space rune a text starts with, and the one it ends with.\<close>

definition leadingSpace :: "string \<Rightarrow> string option" where
  "leadingSpace s = find (\<lambda>e. prefix e s) spaceEncodings"

definition trailingSpace :: "string \<Rightarrow> string option" where
  "trailingSpace s = find (\<lambda>e. suffix e s) spaceEncodings"

function trimLeftSpace :: "string \<Rightarrow> string" where
  "trimLeftSpace s =
     (case leadingSpace s of
        None \<Rightarrow> s
      | Some e \<Rightarrow> trimLeftSpace (drop (length e) s))"
  by pat_completeness auto
termination
proof (relation "measure length")
  show "wf (measure length)" by simp
next
  fix s e
  assume "leadingSpace s = Some e"
  then have "e \<in> set spaceEncodings" and "prefix e s"
    by (auto simp: leadingSpace_def find_Some_iff)
  then have "e \<noteq> []" and "s \<noteq> []"
    by (auto simp: spaceEncodings_def)
  then show "(drop (length e) s, s) \<in> measure length" by simp
qed

function trimRightSpace :: "string \<Rightarrow> string" where
  "trimRightSpace s =
     (case trailingSpace s of
        None \<Rightarrow> s
      | Some e \<Rightarrow> trimRightSpace (take (length s - length e) s))"
  by pat_completeness auto
termination
proof (relation "measure length")
  show "wf (measure length)" by simp
next
  fix s e
  assume "trailingSpace s = Some e"
  then have "e \<in> set spaceEncodings" and "suffix e s"
    by (auto simp: trailingSpace_def find_Some_iff)
  then have "e \<noteq> []" and "s \<noteq> []"
    by (auto simp: spaceEncodings_def)
  then show "(take (length s - length e) s, s) \<in> measure length" by simp
qed

declare trimLeftSpace.simps [simp del] trimRightSpace.simps [simp del]

definition TrimSpace :: "string \<Rightarrow> string" where
  "TrimSpace s = trimRightSpace (trimLeftSpace s)"

text \<open>
  \<open>strings.Trim(safe, ".")\<close>: the cutset is the one byte \<open>.\<close>, removed at both
  ends.
\<close>

definition Trim :: "string \<Rightarrow> char \<Rightarrow> string" where
  "Trim s c = rev (dropWhile (\<lambda>x. x = c) (rev (dropWhile (\<lambda>x. x = c) s)))"

definition sanitizeFilename :: "string \<Rightarrow> string" where
  "sanitizeFilename name =
     (let safe = removeIllegal name;
          safe = TrimSpace safe;
          safe = Trim safe (CHR ''.'');
          safe = (if length safe > 100 then take 100 safe else safe)
      in safe)"

subsection \<open>The job state\<close>

text \<open>
  \<open>exec.Cmd\<close>: the argument vector, and \<open>Process\<close>, which is \<open>nil\<close> until the
  subprocess has been started.
\<close>

record Cmd =
  Args :: "string list"
  Process :: "nat option"

text \<open>
  The fields of \<open>Downloader\<close> behind its mutex. \<open>progress\<close> is a \<open>float64\<close> that
  only ever holds 0 or 100. \<open>cancelFunc\<close> is \<open>nil\<close> or the cancel function of a
  context, named by the number of that context.
\<close>

record Downloader =
  musicDir :: string
  downloadedFiles :: "string list"
  progress :: real
  status :: string
  isDownloading :: bool
  cancelFunc :: "nat option"
  cmd :: "Cmd option"

record DownloadProgress =
  Progress :: real
  Status :: string
  IsDownloading :: bool
  Files :: "string list"

datatype download_error = AlreadyRunningError

text \<open>
  A goroutine started by \<open>go d.downloadVideo(downloadCtx, videoID, title)\<close>: its
  context, identifier and title.
\<close>

record Goroutine =
  gCtx :: nat
  gVideoID :: string
  gTitle :: string

text \<open>What a call does to the world outside the job state.\<close>

datatype effect = CancelCalled nat | ProcessKilled nat

text \<open>
  \<open>NewDownloader\<close>, after the directory has been resolved and \<open>yt-dlp\<close> found:
  every field but \<open>musicDir\<close> and \<open>status\<close> has its zero value.
\<close>

definition NewDownloader :: "string \<Rightarrow> Downloader" where
  "NewDownloader absPath =
     \<lparr>musicDir = absPath, downloadedFiles = [], progress = 0, status = ''Idle'',
      isDownloading = False, cancelFunc = None, cmd = None\<rparr>"

text \<open>
  \<open>DownloadFromYouTube\<close>. \<open>downloadCtx\<close> names the context that
  \<open>context.WithCancel\<close> creates. The result is the error, the job state and the
  goroutine started, if any.
\<close>

definition DownloadFromYouTube ::
  "nat \<Rightarrow> string \<Rightarrow> string \<Rightarrow> Downloader \<Rightarrow> download_error option \<times> Downloader \<times> Goroutine option" where
  "DownloadFromYouTube downloadCtx videoID title d =
     (if isDownloading d then (Some AlreadyRunningError, d, None)
      else
        (let d = d\<lparr>isDownloading := True\<rparr>;
             d = d\<lparr>progress := 0\<rparr>;
             d = d\<lparr>status := ''Starting download...''\<rparr>;
             d = d\<lparr>downloadedFiles := []\<rparr>;
             d = d\<lparr>cancelFunc := Some downloadCtx\<rparr>
         in (None, d, Some \<lparr>gCtx = downloadCtx, gVideoID = videoID, gTitle = title\<rparr>)))"

definition setStatus :: "string \<Rightarrow> bool \<Rightarrow> Downloader \<Rightarrow> Downloader" where
  "setStatus st downloading d = d\<lparr>status := st, isDownloading := downloading\<rparr>"

definition GetProgress :: "Downloader \<Rightarrow> DownloadProgress" where
  "GetProgress d =
     \<lparr>Progress = progress d, Status = status d, IsDownloading = isDownloading d,
      Files = downloadedFiles d\<rparr>"

definition CancelDownload :: "Downloader \<Rightarrow> Downloader \<times> effect list" where
  "CancelDownload d =
     (let (d, fx1) = (case cancelFunc d of
                        Some c \<Rightarrow> (d\<lparr>cancelFunc := None\<rparr>, [CancelCalled c])
                      | None \<Rightarrow> (d, []));
          fx2 = (case cmd d of
                   Some c \<Rightarrow> (case Process c of Some pid \<Rightarrow> [ProcessKilled pid] | None \<Rightarrow> [])
                 | None \<Rightarrow> []);
          d = d\<lparr>isDownloading := False\<rparr>;
          d = d\<lparr>status := ''Download cancelled''\<rparr>
      in (d, fx1 @ fx2))"

subsection \<open>The background run\<close>

text \<open>
  What the run meets outside the job state: the path functions of Go's library, whether
  the context is cancelled when the subprocess returns (\<open>ctx.Err() != nil\<close>), the
  process started, the error of \<open>cmd.CombinedOutput\<close>, whether \<open>os.Stat\<close> reports a
  path as not existing, and the matches of \<open>filepath.Glob\<close>.
\<close>

record RunEnv =
  pathJoin :: "string \<Rightarrow> string \<Rightarrow> string"
  pathBase :: "string \<Rightarrow> string"
  ctxCancelled :: bool
  startedPid :: "nat option"
  runError :: "string option"
  statNotExist :: "string \<Rightarrow> bool"
  globMatches :: "string \<Rightarrow> string list"

text \<open>The name the run stores under: the sanitized title, or the identifier.\<close>

definition safeTitleOf :: "string \<Rightarrow> string \<Rightarrow> string" where
  "safeTitleOf videoID title =
     (let safeTitle = sanitizeFilename title
      in if safeTitle = [] then videoID else safeTitle)"

definition ytdlpArgs :: "string \<Rightarrow> string \<Rightarrow> string list" where
  "ytdlpArgs outputPath videoURL =
     [''yt-dlp'', ''-x'', ''--audio-format'', ''mp3'', ''--audio-quality'', ''0'',
      ''-o'', outputPath, ''--no-playlist'', ''--quiet'', ''--progress'', videoURL]"

text \<open>The deferred function of \<open>downloadVideo\<close>, run on every return.\<close>

definition deferredReset :: "Downloader \<Rightarrow> Downloader" where
  "deferredReset d = d\<lparr>isDownloading := False, cancelFunc := None, cmd := None\<rparr>"

text \<open>The block under the comment "Success!".\<close>

definition recordSuccess :: "RunEnv \<Rightarrow> string \<Rightarrow> Downloader \<Rightarrow> Downloader" where
  "recordSuccess env mp3Path d =
     d\<lparr>downloadedFiles := [mp3Path], progress := 100,
       status := ''Downloaded: '' @ pathBase env mp3Path, isDownloading := False\<rparr>"

text \<open>
  \<open>downloadVideo\<close>, run with no other call in between: from the job state at its
  start to the job state after its deferred function.
\<close>

definition downloadVideo :: "RunEnv \<Rightarrow> string \<Rightarrow> string \<Rightarrow> Downloader \<Rightarrow> Downloader" where
  "downloadVideo env videoID title d =
     (let safeTitle = safeTitleOf videoID title;
          outputPath = pathJoin env (musicDir d) (safeTitle @ ''.%(ext)s'');
          videoURL = ''https://www.youtube.com/watch?v='' @ videoID;
          d = setStatus ''Downloading with yt-dlp...'' True d;
          d = d\<lparr>cmd := Some \<lparr>Args = ytdlpArgs outputPath videoURL, Process = startedPid env\<rparr>\<rparr>
      in deferredReset
           (if ctxCancelled env then setStatus ''Download cancelled'' False d
            else
              (case runError env of
                 Some err \<Rightarrow> setStatus (''Download failed: '' @ err) False d
               | None \<Rightarrow>
                   (let mp3Path = pathJoin env (musicDir d) (safeTitle @ ''.mp3'')
                    in if statNotExist env mp3Path then
                         (case globMatches env (pathJoin env (musicDir d) (safeTitle @ ''.*'')) of
                            m # _ \<Rightarrow> recordSuccess env m d
                          | [] \<Rightarrow> setStatus ''Download completed but file not found'' False d)
                       else recordSuccess env mp3Path d))))"

subsection \<open>Vocabulary of the specification for the orchestrator\<close>

text \<open>
  The expected output path \<open><derivedName>.mp3\<close> and the pattern of the glob
  fallback, \<open><derivedName>.*\<close>, both in the target directory.
\<close>

definition mp3PathOf :: "RunEnv \<Rightarrow> string \<Rightarrow> string \<Rightarrow> Downloader \<Rightarrow> string" where
  "mp3PathOf env videoID title d =
     pathJoin env (musicDir d) (safeTitleOf videoID title @ ''.mp3'')"

definition globPatternOf :: "RunEnv \<Rightarrow> string \<Rightarrow> string \<Rightarrow> Downloader \<Rightarrow> string" where
  "globPatternOf env videoID title d =
     pathJoin env (musicDir d) (safeTitleOf videoID title @ ''.*'')"

section \<open>Playback controller (the player)\<close>

record MusicFile =
  Name :: string
  Path :: string
  FileName :: string

text \<open>
  What \<open>mp3.Decode\<close> yields for a file: the sample rate of its format, and the
  duration \<open>format.SampleRate.D(streamer.Len())\<close> computed by the audio library.
\<close>

record Decoded =
  dSampleRate :: int
  dDuration :: int

datatype play_error =
    EmptyPlaylistError
  | IndexOutOfRange
  | OpenFailed
  | DecodeFailed
  | SpeakerInitFailed

text \<open>
  The fields of \<open>Player\<close> behind its mutex. \<open>streamer\<close> is \<open>nil\<close> or the open
  stream, named by the path of its file; \<open>ctrl\<close> is \<open>nil\<close> or the control wrapper
  with its \<open>Paused\<close> flag; \<open>format\<close> holds the sample rate of the stream's format,
  the one component of it the player reads; \<open>onSongChange\<close> is \<open>nil\<close> or a
  callback, named by a number. Go's \<open>int\<close> is taken as 64 bits wide.
\<close>

record Player =
  streamer :: "string option"
  ctrl :: "bool option"
  sampleRate :: int
  format :: int
  currentFile :: string
  isPlaying :: bool
  isPaused :: bool
  speakerInit :: bool
  position :: int
  duration :: int
  playlist :: "MusicFile list"
  currentIndex :: int
  onSongChange :: "nat option"

definition NewPlayer :: Player where
  "NewPlayer =
     \<lparr>streamer = None, ctrl = None, sampleRate = 0, format = 0, currentFile = [],
      isPlaying = False, isPaused = False, speakerInit = False, position = 0,
      duration = 0, playlist = [], currentIndex = -1, onSongChange = None\<rparr>"

text \<open>Arithmetic on a 64-bit \<open>int\<close>: the result wraps around.\<close>

definition wrap64 :: "int \<Rightarrow> int" where
  "wrap64 x = (x + 2 ^ 63) mod 2 ^ 64 - 2 ^ 63"

definition SetPlaylist :: "MusicFile list \<Rightarrow> Player \<Rightarrow> Player" where
  "SetPlaylist files p =
     (let p = p\<lparr>playlist := files\<rparr>
      in if length files > 0 \<and> currentIndex p < 0 then p\<lparr>currentIndex := 0\<rparr> else p)"

definition SetOnSongChange :: "nat option \<Rightarrow> Player \<Rightarrow> Player" where
  "SetOnSongChange callback p = p\<lparr>onSongChange := callback\<rparr>"

definition stopInternal :: "Player \<Rightarrow> Player" where
  "stopInternal p =
     (let p = (case streamer p of
                 Some _ \<Rightarrow> p\<lparr>streamer := None, ctrl := None\<rparr>
               | None \<Rightarrow> p)
      in p\<lparr>isPlaying := False, isPaused := False\<rparr>)"

text \<open>
  What \<open>PlayFile\<close> meets outside the player: the outcome of \<open>os.Open\<close> and
  \<open>mp3.Decode\<close> for a path, and whether \<open>speaker.Init\<close> fails.
\<close>

record PlayEnv =
  openDecode :: "string \<Rightarrow> play_error + Decoded"
  speakerInitFails :: bool

definition PlayFile :: "PlayEnv \<Rightarrow> string \<Rightarrow> Player \<Rightarrow> play_error option \<times> Player" where
  "PlayFile env filePath p =
     (let p = stopInternal p
      in case openDecode env filePath of
           Inl e \<Rightarrow> (Some e, p)
         | Inr dec \<Rightarrow>
             if \<not> speakerInit p \<and> speakerInitFails env then (Some SpeakerInitFailed, p)
             else
               (let p = (if \<not> speakerInit p
                         then p\<lparr>speakerInit := True, sampleRate := dSampleRate dec\<rparr>
                         else p);
                    p = p\<lparr>ctrl := Some False\<rparr>;
                    p = p\<lparr>streamer := Some filePath, format := dSampleRate dec,
                          currentFile := filePath, isPlaying := True, isPaused := False\<rparr>;
                    p = p\<lparr>duration := dDuration dec\<rparr>
                in (None, p)))"

definition PlayIndex :: "PlayEnv \<Rightarrow> int \<Rightarrow> Player \<Rightarrow> play_error option \<times> Player" where
  "PlayIndex env index p =
     (if index < 0 \<or> index \<ge> int (length (playlist p)) then (Some IndexOutOfRange, p)
      else
        (let p = p\<lparr>currentIndex := index\<rparr>;
             filePath = Path (playlist p ! nat index)
         in PlayFile env filePath p))"

definition NextSong :: "PlayEnv \<Rightarrow> Player \<Rightarrow> play_error option \<times> Player" where
  "NextSong env p =
     (if length (playlist p) = 0 then (Some EmptyPlaylistError, p)
      else
        (let nextIndex = wrap64 (currentIndex p + 1) smod int (length (playlist p))
         in PlayIndex env nextIndex p))"

definition PrevSong :: "PlayEnv \<Rightarrow> Player \<Rightarrow> play_error option \<times> Player" where
  "PrevSong env p =
     (if length (playlist p) = 0 then (Some EmptyPlaylistError, p)
      else
        (let prevIndex = wrap64 (currentIndex p - 1);
             prevIndex = (if prevIndex < 0 then int (length (playlist p)) - 1 else prevIndex)
         in PlayIndex env prevIndex p))"

text \<open>The player after \<open>n\<close> calls of \<open>NextSong\<close>, and after \<open>n\<close> of \<open>PrevSong\<close>.\<close>

fun nextTimes :: "PlayEnv \<Rightarrow> nat \<Rightarrow> Player \<Rightarrow> Player" where
  "nextTimes env 0 p = p"
| "nextTimes env (Suc n) p = nextTimes env n (snd (NextSong env p))"

fun prevTimes :: "PlayEnv \<Rightarrow> nat \<Rightarrow> Player \<Rightarrow> Player" where
  "prevTimes env 0 p = p"
| "prevTimes env (Suc n) p = prevTimes env n (snd (PrevSong env p))"


section \<open>Example environments\<close>

text \<open>
  A run whose subprocess exits with status zero and leaves the expected file, and a run
  whose subprocess leaves a file under another extension, found by the glob. Paths are
  joined with a slash; the base name is what follows the last slash.
\<close>

definition joinSlash :: "string \<Rightarrow> string \<Rightarrow> string" where
  "joinSlash dir name = dir @ ''/'' @ name"

definition baseName :: "string \<Rightarrow> string" where
  "baseName p = rev (takeWhile (\<lambda>c. c \<noteq> CHR ''/'') (rev p))"

definition exampleRunExact :: RunEnv where
  "exampleRunExact =
     \<lparr>pathJoin = joinSlash, pathBase = baseName, ctxCancelled = False,
      startedPid = Some 4711, runError = None, statNotExist = (\<lambda>p. False),
      globMatches = (\<lambda>p. [])\<rparr>"

definition exampleRunGlob :: RunEnv where
  "exampleRunGlob =
     \<lparr>pathJoin = joinSlash, pathBase = baseName, ctxCancelled = False,
      startedPid = Some 4711, runError = None, statNotExist = (\<lambda>p. True),
      globMatches = (\<lambda>p. [''/music/Song.m4a'', ''/music/Song.webm''])\<rparr>"

text \<open>A playlist of three tracks, and a world in which every file opens and decodes.\<close>

definition examplePlaylist :: "MusicFile list" where
  "examplePlaylist =
     [\<lparr>Name = ''a'', Path = ''Music/a.mp3'', FileName = ''a.mp3''\<rparr>,
      \<lparr>Name = ''b'', Path = ''Music/b.mp3'', FileName = ''b.mp3''\<rparr>,
      \<lparr>Name = ''c'', Path = ''Music/c.mp3'', FileName = ''c.mp3''\<rparr>]"

definition examplePlayEnv :: PlayEnv where
  "examplePlayEnv =
     \<lparr>openDecode = (\<lambda>p. Inr \<lparr>dSampleRate = 44100, dDuration = 180000000000\<rparr>),
      speakerInitFails = False\<rparr>"

section \<open>Properties of the result extractor\<close>

lemma VideoID_extractVideoInfo:
  "VideoID (extractVideoInfo r) = (case mapIndex r ''videoId'' of JStr v \<Rightarrow> v | _ \<Rightarrow> [])"
  by (simp add: extractVideoInfo_def Let_def split: json.splits option.splits)

lemma VideoID_resultOf:
  "hasIdentifier item \<Longrightarrow> VideoID (resultOf item) \<noteq> []"
  by (auto simp: hasIdentifier_def resultOf_def VideoID_extractVideoInfo
           split: option.splits json.splits)

text \<open>
  The inner loop, entered with fewer than ten results: it appends the results of the
  items that carry an identifier, in order, and returns early at the tenth.
\<close>

lemma itemsLoop_eq:
  "length acc < 10 \<Longrightarrow>
   itemsLoop items acc =
     (let rs = acc @ map resultOf (filter hasIdentifier items)
      in if length rs \<ge> 10 then Inl (take 10 rs) else Inr rs)"
proof (induction items arbitrary: acc)
  case Nil
  then show ?case by simp
next
  case (Cons item items)
  show ?case
  proof (cases "hasIdentifier item")
    case True
    then obtain im r v where item: "item = JObj im" "mapIndex im ''videoRenderer'' = JObj r"
       "mapIndex r ''videoId'' = JStr v" "v \<noteq> []"
      by (auto simp: hasIdentifier_def rendererOf_def split: json.splits option.splits)
    have ro: "resultOf (JObj im) = extractVideoInfo r"
      by (simp add: resultOf_def rendererOf_def item)
    have hi: "hasIdentifier (JObj im)"
      using True by (simp add: item)
    have vid: "VideoID (extractVideoInfo r) = v"
      by (simp add: VideoID_extractVideoInfo item)
    show ?thesis
    proof (cases "length acc + 1 \<ge> 10")
      case True
      with Cons.prems have "length acc = 9" by simp
      then show ?thesis using True
        by (simp add: item ro vid hi Let_def)
    next
      case False
      then have "length (acc @ [extractVideoInfo r]) < 10" by simp
      from Cons.IH[OF this] show ?thesis using False
        by (simp add: item ro vid hi Let_def)
    qed
  next
    case False
    have "itemsLoop (item # items) acc = itemsLoop items acc"
      using False
      by (auto simp: hasIdentifier_def rendererOf_def VideoID_extractVideoInfo Let_def
               split: json.splits option.splits)
    then show ?thesis using False Cons.IH[OF Cons.prems] by simp
  qed
qed

lemma sectionsLoop_step:
  "sectionsLoop (s # ss) acc =
     (case itemsLoop (sectionItems s) acc of Inl r \<Rightarrow> r | Inr r \<Rightarrow> sectionsLoop ss r)"
  by (simp add: sectionItems_def split: json.splits)

lemma sectionsLoop_eq:
  "length acc < 10 \<Longrightarrow>
   sectionsLoop ss acc = take 10 (acc @ map resultOf (filter hasIdentifier (allItems ss)))"
proof (induction ss arbitrary: acc)
  case Nil
  then show ?case by (simp add: allItems_def)
next
  case (Cons s ss)
  let ?rs = "acc @ map resultOf (filter hasIdentifier (sectionItems s))"
  show ?case
  proof (cases "length ?rs \<ge> 10")
    case True
    then show ?thesis using Cons.prems
      by (simp add: sectionsLoop_step itemsLoop_eq Let_def allItems_def del: sectionsLoop.simps)
  next
    case False
    then have "length ?rs < 10" by simp
    from Cons.IH[OF this] show ?thesis using Cons.prems False
      by (simp add: sectionsLoop_step itemsLoop_eq Let_def allItems_def del: sectionsLoop.simps)
  qed
qed

lemma collectResults_eq:
  "collectResults data = take 10 (map resultOf (filter hasIdentifier (allItems (contentsOf data))))"
  by (simp add: collectResults_def contentsOf_def sectionsLoop_eq allItems_def split: json.splits)

lemma collectResults_no_list:
  "\<not> isArr (navigateJSON (JObj data) contentsPath) \<Longrightarrow> collectResults data = []"
  by (simp add: collectResults_def isArr_def split: json.splits)

lemma parse_found:
  "markerFound html \<Longrightarrow>
   parseYouTubeResults unmarshal html = decodeAndCollect unmarshal (dataBlock html)"
  by (auto simp: parseYouTubeResults_def markerFound_def dataBlock_def Let_def sliceIndex_def)

text \<open>
  C1, as amended. When the marker is found and the data block decodes, the extractor
  returns the results of the first ten video items that carry a non-empty string
  identifier, in document order: exactly min(N, 10) results, where N counts the video
  items with an identifier, each result with a non-empty identifier. Items that are no
  video items, and video items without an identifier, are skipped, and nothing after the
  tenth result is collected.
\<close>

theorem extract_valid_video_items:
  assumes "markerFound html" and "unmarshal (dataBlock html) = Some data"
  shows "\<exists>rs. parseYouTubeResults unmarshal html = Inr rs
           \<and> rs = take 10 (map resultOf (filter hasIdentifier (allItems (contentsOf data))))
           \<and> length rs = min (length (filter hasIdentifier (allItems (contentsOf data)))) 10
           \<and> (\<forall>r \<in> set rs. VideoID r \<noteq> [])"
proof -
  let ?valid = "filter hasIdentifier (allItems (contentsOf data))"
  have eq: "parseYouTubeResults unmarshal html = Inr (take 10 (map resultOf ?valid))"
    using assms by (simp add: parse_found decodeAndCollect_def collectResults_eq)
  have "\<forall>r \<in> set (take 10 (map resultOf ?valid)). VideoID r \<noteq> []"
  proof
    fix r assume "r \<in> set (take 10 (map resultOf ?valid))"
    then have "r \<in> set (map resultOf ?valid)" by (rule in_set_takeD)
    then show "VideoID r \<noteq> []" by (auto simp: VideoID_resultOf)
  qed
  then show ?thesis using eq by (simp add: min.commute)
qed

theorem extract_valid_video_items_witness:
  "markerFound exampleTwoVideosPage
   \<and> [exampleTwoVideosBlock \<mapsto> exampleTwoVideos] (dataBlock exampleTwoVideosPage)
       = Some exampleTwoVideos
   \<and> parseYouTubeResults [exampleTwoVideosBlock \<mapsto> exampleTwoVideos] exampleTwoVideosPage
       = Inr [\<lparr>VideoID = ''abc'', Title = ''Song'', Channel = [], Duration = ''3:05'',
               Thumbnail = []\<rparr>,
              \<lparr>VideoID = ''xyz'', Title = [], Channel = [], Duration = [], Thumbnail = []\<rparr>]"
proof -
  have h1: "markerFound exampleTwoVideosPage" by code_simp
  have db: "dataBlock exampleTwoVideosPage = exampleTwoVideosBlock" by code_simp
  have h2: "[exampleTwoVideosBlock \<mapsto> exampleTwoVideos] (dataBlock exampleTwoVideosPage)
              = Some exampleTwoVideos"
    by (simp add: db)
  have e: "take 10 (map resultOf (filter hasIdentifier (allItems (contentsOf exampleTwoVideos))))
             = [\<lparr>VideoID = ''abc'', Title = ''Song'', Channel = [], Duration = ''3:05'',
                  Thumbnail = []\<rparr>,
                \<lparr>VideoID = ''xyz'', Title = [], Channel = [], Duration = [], Thumbnail = []\<rparr>]"
    by code_simp
  from extract_valid_video_items
         [of exampleTwoVideosPage "[exampleTwoVideosBlock \<mapsto> exampleTwoVideos]"
             exampleTwoVideos, OF h1 h2]
       e h1 h2
  show ?thesis by simp
qed

text \<open>
  C1 as stated counts every video item. The second example page is well formed and its
  data block holds one video item, which has no identifier: the extractor returns no
  result, not min(1, 10) = 1.
\<close>

theorem extract_video_items_counterexample:
  "markerFound exampleNoIdentifierPage
   \<and> dataBlock exampleNoIdentifierPage = exampleNoIdentifierBlock
   \<and> length (filter isVideoItem (allItems (contentsOf exampleNoIdentifier))) = 1
   \<and> parseYouTubeResults [exampleNoIdentifierBlock \<mapsto> exampleNoIdentifier]
        exampleNoIdentifierPage = Inr []"
proof -
  have h1: "markerFound exampleNoIdentifierPage" by code_simp
  have db: "dataBlock exampleNoIdentifierPage = exampleNoIdentifierBlock" by code_simp
  have n: "length (filter isVideoItem (allItems (contentsOf exampleNoIdentifier))) = 1"
    by code_simp
  have c: "collectResults exampleNoIdentifier = []" by code_simp
  show ?thesis using h1 db n c by (simp add: parse_found decodeAndCollect_def)
qed

text \<open>
  C7. A page on which neither pattern matches yields \<open>ExtractionError\<close>. The group of
  the first pattern is decoded whenever the first pattern matches; the second pattern
  decides only when the first has failed; the error is returned only when both have
  failed. No input makes the function panic.
\<close>

theorem extract_marker_absent:
  "(length (FindStringSubmatch matchHere1 html) < 2
      \<and> length (FindStringSubmatch matchHere2 html) < 2
      \<longrightarrow> parseYouTubeResults unmarshal html = Inl ExtractionError)
   \<and> (length (FindStringSubmatch matchHere1 html) \<ge> 2
      \<longrightarrow> parseYouTubeResults unmarshal html
            = decodeAndCollect unmarshal (FindStringSubmatch matchHere1 html ! 1))
   \<and> (length (FindStringSubmatch matchHere1 html) < 2
      \<and> length (FindStringSubmatch matchHere2 html) \<ge> 2
      \<longrightarrow> parseYouTubeResults unmarshal html
            = decodeAndCollect unmarshal (FindStringSubmatch matchHere2 html ! 1))
   \<and> (parseYouTubeResults unmarshal html = Inl ExtractionError
      \<longrightarrow> \<not> markerFound html)
   \<and> parseYouTubeResults unmarshal html \<noteq> Inl IndexPanic"
  by (auto simp: parseYouTubeResults_def decodeAndCollect_def markerFound_def Let_def
                 sliceIndex_def
           split: option.splits)

theorem extract_marker_absent_witness:
  "length (FindStringSubmatch matchHere1 ''<html><body>no results</body></html>'') < 2
   \<and> length (FindStringSubmatch matchHere2 ''<html><body>no results</body></html>'') < 2
   \<and> parseYouTubeResults (Map.empty :: string \<rightharpoonup> (string \<times> real json) list)
        ''<html><body>no results</body></html>'' = Inl ExtractionError
   \<and> length (FindStringSubmatch matchHere1 exampleNoPathPage) \<ge> 2
   \<and> parseYouTubeResults [exampleNoPathBlock \<mapsto> exampleNoPath] exampleNoPathPage = Inr []
   \<and> length (FindStringSubmatch matchHere1 ''<script>window.ytInitialData ={};</script>'') < 2
   \<and> length (FindStringSubmatch matchHere2 ''<script>window.ytInitialData ={};</script>'') \<ge> 2
   \<and> parseYouTubeResults [''{}'' \<mapsto> ([] :: (string \<times> real json) list)]
        ''<script>window.ytInitialData ={};</script>'' = Inr []"
proof -
  have a1: "length (FindStringSubmatch matchHere1 ''<html><body>no results</body></html>'') < 2"
    by code_simp
  have a2: "length (FindStringSubmatch matchHere2 ''<html><body>no results</body></html>'') < 2"
    by code_simp
  have b1: "length (FindStringSubmatch matchHere1 exampleNoPathPage) \<ge> 2" by code_simp
  have b2: "FindStringSubmatch matchHere1 exampleNoPathPage ! 1 = exampleNoPathBlock"
    by code_simp
  have b3: "collectResults exampleNoPath = []" by code_simp
  have c1: "length (FindStringSubmatch matchHere1 ''<script>window.ytInitialData ={};</script>'') < 2"
    by code_simp
  have c2: "length (FindStringSubmatch matchHere2 ''<script>window.ytInitialData ={};</script>'') \<ge> 2"
    by code_simp
  have c3: "FindStringSubmatch matchHere2 ''<script>window.ytInitialData ={};</script>'' ! 1 = ''{}''"
    by code_simp
  have c4: "collectResults ([] :: (string \<times> real json) list) = []" by code_simp
  show ?thesis
    using extract_marker_absent
            [of "''<html><body>no results</body></html>''"
                "Map.empty :: string \<rightharpoonup> (string \<times> real json) list"]
          extract_marker_absent [of exampleNoPathPage "[exampleNoPathBlock \<mapsto> exampleNoPath]"]
          extract_marker_absent
            [of "''<script>window.ytInitialData ={};</script>''"
                "[''{}'' \<mapsto> ([] :: (string \<times> real json) list)]"]
          a1 a2 b1 b2 b3 c1 c2 c3 c4
    by (simp add: decodeAndCollect_def)
qed

text \<open>
  C10. When the marker is found and the data block decodes, but the fixed path does not
  lead to a list (a key is absent, or a value on the way or at the end has another
  shape), the extractor returns the empty result list and no error.
\<close>

theorem extract_path_missing:
  assumes "markerFound html"
    and "unmarshal (dataBlock html) = Some data"
    and "\<not> isArr (navigateJSON (JObj data) contentsPath)"
  shows "parseYouTubeResults unmarshal html = Inr []"
  using assms by (simp add: parse_found decodeAndCollect_def collectResults_no_list)

theorem extract_path_missing_witness:
  "markerFound exampleNoPathPage
   \<and> [exampleNoPathBlock \<mapsto> exampleNoPath] (dataBlock exampleNoPathPage) = Some exampleNoPath
   \<and> \<not> isArr (navigateJSON (JObj exampleNoPath) contentsPath)
   \<and> parseYouTubeResults [exampleNoPathBlock \<mapsto> exampleNoPath] exampleNoPathPage = Inr []"
proof -
  have h1: "markerFound exampleNoPathPage" by code_simp
  have db: "dataBlock exampleNoPathPage = exampleNoPathBlock" by code_simp
  have h2: "[exampleNoPathBlock \<mapsto> exampleNoPath] (dataBlock exampleNoPathPage)
              = Some exampleNoPath"
    by (simp add: db)
  have h3: "\<not> isArr (navigateJSON (JObj exampleNoPath) contentsPath)" by code_simp
  from extract_path_missing
         [of exampleNoPathPage "[exampleNoPathBlock \<mapsto> exampleNoPath]" exampleNoPath,
          OF h1 h2 h3]
       h1 h2 h3
  show ?thesis by simp
qed

section \<open>Properties of the acquisition orchestrator\<close>

text \<open>
  C2. A call of \<open>DownloadFromYouTube\<close> while a job is running returns the error at
  once, leaves every field of the job state as it was and starts no goroutine.
\<close>

theorem start_while_running:
  "isDownloading d \<Longrightarrow>
   DownloadFromYouTube downloadCtx videoID title d = (Some AlreadyRunningError, d, None)"
  by (simp add: DownloadFromYouTube_def)

theorem start_while_running_witness:
  "isDownloading (fst (snd (DownloadFromYouTube 1 ''abc'' ''Song'' (NewDownloader ''/music''))))
   \<and> DownloadFromYouTube 2 ''xyz'' ''Other''
        (fst (snd (DownloadFromYouTube 1 ''abc'' ''Song'' (NewDownloader ''/music''))))
      = (Some AlreadyRunningError,
         fst (snd (DownloadFromYouTube 1 ''abc'' ''Song'' (NewDownloader ''/music''))), None)"
proof -
  have h: "isDownloading
             (fst (snd (DownloadFromYouTube 1 ''abc'' ''Song'' (NewDownloader ''/music''))))"
    by (simp add: DownloadFromYouTube_def NewDownloader_def)
  from start_while_running [OF h] h show ?thesis by simp
qed

text \<open>
  The block under "Success!" and the deferred function that follows it leave one result
  file, progress 100 and the running flag off, from whatever job state they start in.
\<close>

lemma recordSuccess_snapshot:
  "GetProgress (deferredReset (recordSuccess env mp3Path d)) =
     \<lparr>Progress = 100, Status = ''Downloaded: '' @ pathBase env mp3Path,
      IsDownloading = False, Files = [mp3Path]\<rparr>"
  by (simp add: GetProgress_def deferredReset_def recordSuccess_def)

text \<open>
  C3. A run that is not cancelled, whose subprocess returns no error and whose output
  file is found under the exact name or by the glob, ends in a job state whose snapshot
  has exactly one result file (the exact path, or the first match of the glob), progress
  100 and the running flag off.
\<close>

theorem download_success:
  assumes "\<not> ctxCancelled env" and "runError env = None"
    and "\<not> statNotExist env (mp3PathOf env videoID title d)
         \<or> globMatches env (globPatternOf env videoID title d) \<noteq> []"
  shows "length (Files (GetProgress (downloadVideo env videoID title d))) = 1
         \<and> Progress (GetProgress (downloadVideo env videoID title d)) = 100
         \<and> \<not> IsDownloading (GetProgress (downloadVideo env videoID title d))
         \<and> Files (GetProgress (downloadVideo env videoID title d)) =
             [if statNotExist env (mp3PathOf env videoID title d)
              then hd (globMatches env (globPatternOf env videoID title d))
              else mp3PathOf env videoID title d]"
  using assms
  by (auto simp: downloadVideo_def GetProgress_def deferredReset_def recordSuccess_def
                 setStatus_def mp3PathOf_def globPatternOf_def Let_def
           split: list.splits)

theorem download_success_witness:
  "\<not> ctxCancelled exampleRunExact \<and> runError exampleRunExact = None
   \<and> \<not> statNotExist exampleRunExact
          (mp3PathOf exampleRunExact ''abc'' ''A/B: Song?'' (NewDownloader ''/music''))
   \<and> GetProgress (downloadVideo exampleRunExact ''abc'' ''A/B: Song?'' (NewDownloader ''/music''))
       = \<lparr>Progress = 100, Status = ''Downloaded: AB Song.mp3'', IsDownloading = False,
          Files = [''/music/AB Song.mp3'']\<rparr>
   \<and> \<not> ctxCancelled exampleRunGlob \<and> runError exampleRunGlob = None
   \<and> globMatches exampleRunGlob
        (globPatternOf exampleRunGlob ''abc'' ''Song'' (NewDownloader ''/music'')) \<noteq> []
   \<and> GetProgress (downloadVideo exampleRunGlob ''abc'' ''Song'' (NewDownloader ''/music''))
       = \<lparr>Progress = 100, Status = ''Downloaded: Song.m4a'', IsDownloading = False,
          Files = [''/music/Song.m4a'']\<rparr>"
proof -
  have t: "safeTitleOf ''abc'' ''A/B: Song?'' = ''AB Song''" by code_simp
  have a1: "\<not> ctxCancelled exampleRunExact" and a2: "runError exampleRunExact = None"
    and a3: "\<not> statNotExist exampleRunExact
                 (mp3PathOf exampleRunExact ''abc'' ''A/B: Song?'' (NewDownloader ''/music''))"
    by (simp_all add: exampleRunExact_def)
  have b1: "\<not> ctxCancelled exampleRunGlob" and b2: "runError exampleRunGlob = None"
    and b3: "globMatches exampleRunGlob
               (globPatternOf exampleRunGlob ''abc'' ''Song'' (NewDownloader ''/music'')) \<noteq> []"
    and b4: "statNotExist exampleRunGlob
               (mp3PathOf exampleRunGlob ''abc'' ''Song'' (NewDownloader ''/music''))"
    by (simp_all add: exampleRunGlob_def)
  have pa: "mp3PathOf exampleRunExact ''abc'' ''A/B: Song?'' (NewDownloader ''/music'')
              = ''/music/AB Song.mp3''"
    by (simp add: mp3PathOf_def t exampleRunExact_def joinSlash_def NewDownloader_def)
  have pb: "hd (globMatches exampleRunGlob
                  (globPatternOf exampleRunGlob ''abc'' ''Song'' (NewDownloader ''/music'')))
              = ''/music/Song.m4a''"
    by (simp add: exampleRunGlob_def)
  have sa: "Status (GetProgress
              (downloadVideo exampleRunExact ''abc'' ''A/B: Song?'' (NewDownloader ''/music'')))
              = ''Downloaded: AB Song.mp3''"
    by (simp add: downloadVideo_def GetProgress_def deferredReset_def recordSuccess_def
                  setStatus_def t Let_def exampleRunExact_def joinSlash_def baseName_def
                  NewDownloader_def)
  have tb: "safeTitleOf ''abc'' ''Song'' = ''Song''" by code_simp
  have sb: "Status (GetProgress
              (downloadVideo exampleRunGlob ''abc'' ''Song'' (NewDownloader ''/music'')))
              = ''Downloaded: Song.m4a''"
    by (simp add: downloadVideo_def GetProgress_def deferredReset_def recordSuccess_def
                  setStatus_def tb Let_def exampleRunGlob_def joinSlash_def baseName_def
                  NewDownloader_def)
  have ra: "GetProgress (downloadVideo exampleRunExact ''abc'' ''A/B: Song?'' (NewDownloader ''/music''))
              = \<lparr>Progress = 100, Status = ''Downloaded: AB Song.mp3'', IsDownloading = False,
                 Files = [''/music/AB Song.mp3'']\<rparr>"
    using download_success
            [of exampleRunExact "''abc''" "''A/B: Song?''" "NewDownloader ''/music''",
             OF a1 a2 disjI1 [OF a3]]
          a3 pa sa
    by (cases "GetProgress (downloadVideo exampleRunExact ''abc'' ''A/B: Song?''
                 (NewDownloader ''/music''))") simp
  have rb: "GetProgress (downloadVideo exampleRunGlob ''abc'' ''Song'' (NewDownloader ''/music''))
              = \<lparr>Progress = 100, Status = ''Downloaded: Song.m4a'', IsDownloading = False,
                 Files = [''/music/Song.m4a'']\<rparr>"
    using download_success
            [of exampleRunGlob "''abc''" "''Song''" "NewDownloader ''/music''",
             OF b1 b2 disjI2 [OF b3]]
          b4 pb sb
    by (cases "GetProgress (downloadVideo exampleRunGlob ''abc'' ''Song''
                 (NewDownloader ''/music''))") simp
  show ?thesis using a1 a2 a3 b1 b2 b3 ra rb by simp
qed

text \<open>
  C4. On the downloader as \<open>NewDownloader\<close> creates it (no job running, no cancel
  function, no subprocess), \<open>CancelDownload\<close> calls nothing and kills nothing, but
  replaces the status "Idle" by "Download cancelled".
\<close>

theorem cancel_without_job_changes_status:
  "CancelDownload (NewDownloader ''/music'')
     = ((NewDownloader ''/music'')\<lparr>status := ''Download cancelled''\<rparr>, [])
   \<and> \<not> isDownloading (NewDownloader ''/music'')
   \<and> cancelFunc (NewDownloader ''/music'') = None
   \<and> cmd (NewDownloader ''/music'') = None
   \<and> status (NewDownloader ''/music'') = ''Idle''
   \<and> status (fst (CancelDownload (NewDownloader ''/music''))) = ''Download cancelled''
   \<and> fst (CancelDownload (NewDownloader ''/music'')) \<noteq> NewDownloader ''/music''"
  by (simp add: CancelDownload_def NewDownloader_def)

subsection \<open>Derived file names\<close>

lemma suffix_trimLeftSpace: "suffix (trimLeftSpace s) s"
proof (induction s rule: trimLeftSpace.induct)
  case (1 s)
  show ?case
  proof (cases "leadingSpace s")
    case None
    then show ?thesis by (simp add: trimLeftSpace.simps)
  next
    case (Some e)
    with 1 have "suffix (trimLeftSpace (drop (length e) s)) (drop (length e) s)" by simp
    then have "suffix (trimLeftSpace (drop (length e) s)) s"
      using suffix_drop suffix_order.trans by blast
    then show ?thesis using Some by (simp add: trimLeftSpace.simps[of s])
  qed
qed

lemma prefix_trimRightSpace: "prefix (trimRightSpace s) s"
proof (induction s rule: trimRightSpace.induct)
  case (1 s)
  show ?case
  proof (cases "trailingSpace s")
    case None
    then show ?thesis by (simp add: trimRightSpace.simps)
  next
    case (Some e)
    with 1 have "prefix (trimRightSpace (take (length s - length e) s)) (take (length s - length e) s)"
      by simp
    then have "prefix (trimRightSpace (take (length s - length e) s)) s"
      using take_is_prefix prefix_order.trans by blast
    then show ?thesis using Some by (simp add: trimRightSpace.simps[of s])
  qed
qed

lemma leadingSpace_trimLeftSpace: "leadingSpace (trimLeftSpace s) = None"
proof (induction s rule: trimLeftSpace.induct)
  case (1 s)
  show ?case
  proof (cases "leadingSpace s")
    case None
    then show ?thesis by (simp add: trimLeftSpace.simps)
  next
    case (Some e)
    with 1 show ?thesis by (simp add: trimLeftSpace.simps[of s])
  qed
qed

lemma trailingSpace_trimRightSpace: "trailingSpace (trimRightSpace s) = None"
proof (induction s rule: trimRightSpace.induct)
  case (1 s)
  show ?case
  proof (cases "trailingSpace s")
    case None
    then show ?thesis by (simp add: trimRightSpace.simps)
  next
    case (Some e)
    with 1 show ?thesis by (simp add: trimRightSpace.simps[of s])
  qed
qed

lemma leadingSpace_prefix: "leadingSpace s = None \<Longrightarrow> prefix t s \<Longrightarrow> leadingSpace t = None"
  unfolding leadingSpace_def find_None_iff
  using prefix_order.trans by blast

lemma set_TrimSpace: "set (TrimSpace s) \<subseteq> set s"
proof -
  have "set (trimRightSpace (trimLeftSpace s)) \<subseteq> set (trimLeftSpace s)"
    using prefix_trimRightSpace set_mono_prefix by blast
  moreover have "set (trimLeftSpace s) \<subseteq> set s"
    using suffix_trimLeftSpace set_mono_suffix by blast
  ultimately show ?thesis by (auto simp: TrimSpace_def)
qed

lemma leadingSpace_TrimSpace: "leadingSpace (TrimSpace s) = None"
  unfolding TrimSpace_def
  by (rule leadingSpace_prefix[OF leadingSpace_trimLeftSpace prefix_trimRightSpace])

lemma trailingSpace_TrimSpace: "trailingSpace (TrimSpace s) = None"
  by (simp add: TrimSpace_def trailingSpace_trimRightSpace)

lemma prefix_Trim: "prefix (Trim s c) (dropWhile (\<lambda>x. x = c) s)"
proof -
  let ?t = "dropWhile (\<lambda>x. x = c) s"
  have "rev ?t = takeWhile (\<lambda>x. x = c) (rev ?t) @ dropWhile (\<lambda>x. x = c) (rev ?t)" by simp
  then have "?t = rev (dropWhile (\<lambda>x. x = c) (rev ?t)) @ rev (takeWhile (\<lambda>x. x = c) (rev ?t))"
    by (metis rev_append rev_rev_ident)
  then show ?thesis unfolding Trim_def by (metis prefixI)
qed

lemma set_Trim: "set (Trim s c) \<subseteq> set s"
proof -
  have "set (Trim s c) \<subseteq> set (dropWhile (\<lambda>x. x = c) s)"
    using prefix_Trim set_mono_prefix by blast
  then show ?thesis using set_dropWhileD by fastforce
qed

lemma Trim_no_leading: "\<not> prefix [c] (Trim s c)"
proof
  assume "prefix [c] (Trim s c)"
  then have "prefix [c] (dropWhile (\<lambda>x. x = c) s)"
    using prefix_Trim prefix_order.trans by blast
  then obtain r where "dropWhile (\<lambda>x. x = c) s = c # r" by (auto simp: prefix_def)
  then show False using hd_dropWhile[of "\<lambda>x. x = c" s] by auto
qed

lemma Trim_no_trailing: "\<not> suffix [c] (Trim s c)"
proof
  assume "suffix [c] (Trim s c)"
  then obtain r where "Trim s c = r @ [c]" by (auto simp: suffix_def)
  then have "dropWhile (\<lambda>x. x = c) (rev (dropWhile (\<lambda>x. x = c) s)) = c # rev r"
    unfolding Trim_def by (metis rev.simps(2) rev_rev_ident rev_append append_Nil rev_singleton_conv)
  then show False using hd_dropWhile[of "\<lambda>x. x = c" "rev (dropWhile (\<lambda>x. x = c) s)"] by auto
qed

lemma set_sanitizeFilename: "set (sanitizeFilename name) \<subseteq> set (removeIllegal name)"
proof -
  have "set (Trim (TrimSpace (removeIllegal name)) (CHR ''.'')) \<subseteq> set (removeIllegal name)"
    using set_Trim set_TrimSpace by blast
  moreover have "set (take 100 (Trim (TrimSpace (removeIllegal name)) (CHR ''.'')))
                  \<subseteq> set (Trim (TrimSpace (removeIllegal name)) (CHR ''.''))"
    by (rule set_take_subset)
  ultimately show ?thesis by (auto simp: sanitizeFilename_def Let_def)
qed

lemma sanitizeFilename_take:
  "sanitizeFilename name = take 100 (Trim (TrimSpace (removeIllegal name)) (CHR ''.''))"
  by (simp add: sanitizeFilename_def Let_def)

lemma dropWhile_no_prefix: "\<not> prefix [c] s \<Longrightarrow> dropWhile (\<lambda>x. x = c) s = s"
  by (cases s) auto

lemma Trim_unchanged: "\<not> prefix [c] s \<Longrightarrow> \<not> suffix [c] s \<Longrightarrow> Trim s c = s"
proof -
  assume p: "\<not> prefix [c] s" and q: "\<not> suffix [c] s"
  have "\<not> prefix [c] (rev s)"
  proof
    assume "prefix [c] (rev s)"
    then obtain r where "rev s = c # r" by (auto simp: prefix_def)
    then have "s = rev r @ [c]" by (metis rev.simps(2) rev_rev_ident)
    then show False using q by (auto simp: suffix_def)
  qed
  then show ?thesis using p by (simp add: Trim_def dropWhile_no_prefix)
qed

lemma prefix_Trim_no_leading: "\<not> prefix [c] s \<Longrightarrow> prefix (Trim s c) s"
  using prefix_Trim[of s c] by (simp add: dropWhile_no_prefix)

text \<open>
  What holds of the derived name for every title. It holds none of the nine illegal
  characters, has at most 100 bytes and does not begin with a dot; it does not end with
  a dot when the cut to 100 bytes removes nothing; it has no leading white space when
  the title, stripped and trimmed of white space, does not begin with a dot; and it is
  that stripped and trimmed title itself, free of white space and dots at both ends,
  when this has no dot at either end and at most 100 bytes. In the run, the identifier
  stands in for an empty derived name.
\<close>

lemma sanitizeFilename_guarantees:
  "(\<forall>c \<in> set (sanitizeFilename title). c \<notin> set illegalChars)
   \<and> length (sanitizeFilename title) \<le> 100
   \<and> \<not> prefix ''.'' (sanitizeFilename title)
   \<and> (length (Trim (TrimSpace (removeIllegal title)) (CHR ''.'')) \<le> 100 \<longrightarrow>
        \<not> suffix ''.'' (sanitizeFilename title))
   \<and> (\<not> prefix ''.'' (TrimSpace (removeIllegal title)) \<longrightarrow>
        leadingSpace (sanitizeFilename title) = None)
   \<and> (\<not> prefix ''.'' (TrimSpace (removeIllegal title))
        \<and> \<not> suffix ''.'' (TrimSpace (removeIllegal title))
        \<and> length (TrimSpace (removeIllegal title)) \<le> 100 \<longrightarrow>
        sanitizeFilename title = TrimSpace (removeIllegal title)
        \<and> leadingSpace (sanitizeFilename title) = None
        \<and> trailingSpace (sanitizeFilename title) = None)
   \<and> safeTitleOf videoID title =
        (if sanitizeFilename title = [] then videoID else sanitizeFilename title)"
proof (intro conjI impI)
  let ?T = "TrimSpace (removeIllegal title)"
  show "\<forall>c \<in> set (sanitizeFilename title). c \<notin> set illegalChars"
    using set_sanitizeFilename[of title] by (auto simp: removeIllegal_def)
  show "length (sanitizeFilename title) \<le> 100"
    by (simp add: sanitizeFilename_take)
  show "\<not> prefix ''.'' (sanitizeFilename title)"
  proof
    assume "prefix ''.'' (sanitizeFilename title)"
    then have "prefix ''.'' (Trim ?T (CHR ''.''))"
      unfolding sanitizeFilename_take using take_is_prefix prefix_order.trans by blast
    then show False using Trim_no_leading by blast
  qed
  show "\<not> suffix ''.'' (sanitizeFilename title)"
    if "length (Trim ?T (CHR ''.'')) \<le> 100"
    using that by (simp add: sanitizeFilename_take Trim_no_trailing)
  show "leadingSpace (sanitizeFilename title) = None" if "\<not> prefix ''.'' ?T"
  proof -
    have "prefix (sanitizeFilename title) (Trim ?T (CHR ''.''))"
      by (simp add: sanitizeFilename_take take_is_prefix)
    then have "prefix (sanitizeFilename title) ?T"
      using prefix_Trim_no_leading[OF that] prefix_order.trans by blast
    then show ?thesis by (rule leadingSpace_prefix[OF leadingSpace_TrimSpace])
  qed
  assume h: "\<not> prefix ''.'' ?T \<and> \<not> suffix ''.'' ?T \<and> length ?T \<le> 100"
  then show eq: "sanitizeFilename title = ?T"
    by (simp add: sanitizeFilename_take Trim_unchanged)
  show "leadingSpace (sanitizeFilename title) = None"
    by (simp add: eq leadingSpace_TrimSpace)
  show "trailingSpace (sanitizeFilename title) = None"
    by (simp add: eq trailingSpace_TrimSpace)
next
  show "safeTitleOf videoID title =
        (if sanitizeFilename title = [] then videoID else sanitizeFilename title)"
    by (simp add: safeTitleOf_def)
qed

lemma sanitizeFilename_examples:
  "sanitizeFilename ''A/B: Song?'' = ''AB Song''
   \<and> sanitizeFilename '' Mr. Brightside '' = ''Mr. Brightside''
   \<and> sanitizeFilename ''<?*>'' = []
   \<and> safeTitleOf ''dQw4w9WgXcQ'' ''<?*>'' = ''dQw4w9WgXcQ''"
  by code_simp

text \<open>
  C5. The derived name is to be free of white space and dots at both ends.
  \<open>sanitizeFilename\<close> trims white space once and dots once after it, so the title
  \<open>. a .\<close> keeps its inner spaces at both ends of the name once the dots are gone.
\<close>

theorem sanitizeFilename_leaves_spaces:
  "sanitizeFilename ''. a .'' = '' a ''
   \<and> leadingSpace (sanitizeFilename ''. a .'') = Some '' ''
   \<and> trailingSpace (sanitizeFilename ''. a .'') = Some '' ''"
  by code_simp

text \<open>
  The same at one end only, and after the cut: a title that ends in dots after a space
  keeps the space, and the cut to 100 bytes, which comes after the trimming, can end the
  name in a space.
\<close>

lemma sanitizeFilename_trailing_space:
  "sanitizeFilename ''Wait for it ...'' = ''Wait for it ''
   \<and> trailingSpace (sanitizeFilename ''Wait for it ...'') = Some '' ''
   \<and> length (replicate 99 (CHR ''a'') @ '' b'') = 101
   \<and> sanitizeFilename (replicate 99 (CHR ''a'') @ '' b'') = replicate 99 (CHR ''a'') @ '' ''
   \<and> trailingSpace (sanitizeFilename (replicate 99 (CHR ''a'') @ '' b'')) = Some '' ''"
  by code_simp

section \<open>Properties of the playback controller\<close>

lemma wrap64_id: "- (2 ^ 63) \<le> x \<Longrightarrow> x < 2 ^ 63 \<Longrightarrow> wrap64 x = x"
  by (simp add: wrap64_def)

lemma smod_nonneg: "0 \<le> a \<Longrightarrow> 0 < b \<Longrightarrow> (a::int) smod b = a mod b"
  by (simp add: signed_modulo_int_def sgn_if)

lemma PlayFile_frame:
  "playlist (snd (PlayFile env f p)) = playlist p
   \<and> currentIndex (snd (PlayFile env f p)) = currentIndex p"
  by (simp add: PlayFile_def stopInternal_def Let_def split: sum.splits option.splits)

lemma PlayIndex_in_range:
  "0 \<le> i \<Longrightarrow> i < int (length (playlist p)) \<Longrightarrow>
   playlist (snd (PlayIndex env i p)) = playlist p
   \<and> currentIndex (snd (PlayIndex env i p)) = i"
  by (simp add: PlayIndex_def Let_def PlayFile_frame)

lemma NextSong_index:
  assumes "playlist p \<noteq> []" and "int (length (playlist p)) < 2 ^ 63"
    and "0 \<le> currentIndex p" and "currentIndex p < int (length (playlist p))"
  shows "playlist (snd (NextSong env p)) = playlist p
         \<and> currentIndex (snd (NextSong env p)) = (currentIndex p + 1) mod int (length (playlist p))"
proof -
  let ?n = "int (length (playlist p))"
  have n: "0 < ?n" using assms(1) by simp
  have w: "wrap64 (currentIndex p + 1) = currentIndex p + 1"
    using assms by (intro wrap64_id) auto
  have m: "(currentIndex p + 1) smod ?n = (currentIndex p + 1) mod ?n"
    using assms(3) n by (intro smod_nonneg) auto
  have r: "0 \<le> (currentIndex p + 1) mod ?n" "(currentIndex p + 1) mod ?n < ?n"
    using n by auto
  show ?thesis
    using assms(1) PlayIndex_in_range[OF r, of env]
    by (simp add: NextSong_def Let_def w m)
qed

lemma PrevSong_index:
  assumes "playlist p \<noteq> []" and "int (length (playlist p)) < 2 ^ 63"
    and "0 \<le> currentIndex p" and "currentIndex p < int (length (playlist p))"
  shows "playlist (snd (PrevSong env p)) = playlist p
         \<and> currentIndex (snd (PrevSong env p)) =
             (currentIndex p - 1 + int (length (playlist p))) mod int (length (playlist p))"
proof -
  let ?n = "int (length (playlist p))"
  have n: "0 < ?n" using assms(1) by simp
  have w: "wrap64 (currentIndex p - 1) = currentIndex p - 1"
    using assms by (intro wrap64_id) auto
  let ?i = "if currentIndex p - 1 < 0 then ?n - 1 else currentIndex p - 1"
  have e: "?i = (currentIndex p - 1 + ?n) mod ?n"
  proof (cases "currentIndex p = 0")
    case True
    then have "currentIndex p - 1 + ?n = ?n - 1" by simp
    moreover have "(?n - 1) mod ?n = ?n - 1" using n by (intro mod_pos_pos_trivial) auto
    ultimately show ?thesis using True by simp
  next
    case False
    then have "0 \<le> currentIndex p - 1" "currentIndex p - 1 < ?n" using assms by auto
    then have "(currentIndex p - 1) mod ?n = currentIndex p - 1"
      by (intro mod_pos_pos_trivial)
    moreover have "(currentIndex p - 1 + ?n) mod ?n = (currentIndex p - 1) mod ?n" by simp
    ultimately show ?thesis using \<open>0 \<le> currentIndex p - 1\<close> by simp
  qed
  have r: "0 \<le> ?i" "?i < ?n" using assms n by auto
  show ?thesis
    using assms(1) PlayIndex_in_range[OF r, of env] e
    by (simp add: PrevSong_def Let_def w)
qed

lemma nextTimes_index:
  assumes "playlist p \<noteq> []" and "int (length (playlist p)) < 2 ^ 63"
    and "0 \<le> currentIndex p" and "currentIndex p < int (length (playlist p))"
  shows "playlist (nextTimes env k p) = playlist p
         \<and> currentIndex (nextTimes env k p) = (currentIndex p + int k) mod int (length (playlist p))"
  using assms
proof (induction k arbitrary: p)
  case 0
  then show ?case by simp
next
  case (Suc k)
  let ?q = "snd (NextSong env p)"
  let ?n = "int (length (playlist p))"
  from NextSong_index[OF Suc.prems, of env]
  have q: "playlist ?q = playlist p" "currentIndex ?q = (currentIndex p + 1) mod ?n" by auto
  have n: "0 < ?n" using Suc.prems(1) by simp
  have "playlist (nextTimes env k ?q) = playlist ?q
        \<and> currentIndex (nextTimes env k ?q) = (currentIndex ?q + int k) mod int (length (playlist ?q))"
    using Suc.prems n by (intro Suc.IH) (auto simp: q)
  moreover have "((currentIndex p + 1) mod ?n + int k) mod ?n = (currentIndex p + int (Suc k)) mod ?n"
  proof -
    have "((currentIndex p + 1) mod ?n + int k) mod ?n = ((currentIndex p + 1) + int k) mod ?n"
      by (rule mod_add_left_eq)
    also have "\<dots> = (currentIndex p + int (Suc k)) mod ?n"
      by (simp add: algebra_simps)
    finally show ?thesis .
  qed
  ultimately show ?case by (simp add: q)
qed

lemma prevTimes_index:
  assumes "playlist p \<noteq> []" and "int (length (playlist p)) < 2 ^ 63"
    and "0 \<le> currentIndex p" and "currentIndex p < int (length (playlist p))"
  shows "playlist (prevTimes env k p) = playlist p
         \<and> currentIndex (prevTimes env k p) = (currentIndex p - int k) mod int (length (playlist p))"
  using assms
proof (induction k arbitrary: p)
  case 0
  then show ?case by simp
next
  case (Suc k)
  let ?q = "snd (PrevSong env p)"
  let ?n = "int (length (playlist p))"
  from PrevSong_index[OF Suc.prems, of env]
  have q: "playlist ?q = playlist p" "currentIndex ?q = (currentIndex p - 1 + ?n) mod ?n" by auto
  have n: "0 < ?n" using Suc.prems(1) by simp
  have "playlist (prevTimes env k ?q) = playlist ?q
        \<and> currentIndex (prevTimes env k ?q) = (currentIndex ?q - int k) mod int (length (playlist ?q))"
    using Suc.prems n by (intro Suc.IH) (auto simp: q)
  moreover have "((currentIndex p - 1 + ?n) mod ?n - int k) mod ?n = (currentIndex p - int (Suc k)) mod ?n"
  proof -
    have "((currentIndex p - 1 + ?n) mod ?n - int k) mod ?n = ((currentIndex p - 1 + ?n) - int k) mod ?n"
      by (rule mod_diff_left_eq)
    also have "\<dots> = ((currentIndex p - int (Suc k)) + ?n) mod ?n"
      by (simp add: algebra_simps)
    also have "\<dots> = (currentIndex p - int (Suc k)) mod ?n" by simp
    finally show ?thesis .
  qed
  ultimately show ?case by (simp add: q)
qed

text \<open>
  The index stays at \<open>-1\<close> or above: \<open>NewPlayer\<close> starts there and every
  operation that writes the index keeps it there.
\<close>

lemma PlayIndex_index_lower:
  "- 1 \<le> currentIndex p \<Longrightarrow> - 1 \<le> currentIndex (snd (PlayIndex env i p))"
  by (simp add: PlayIndex_def Let_def PlayFile_frame)

lemma currentIndex_lower:
  "- 1 \<le> currentIndex NewPlayer"
  "- 1 \<le> currentIndex p \<Longrightarrow> - 1 \<le> currentIndex (SetPlaylist files p)"
  "- 1 \<le> currentIndex p \<Longrightarrow> - 1 \<le> currentIndex (snd (NextSong env p))"
  "- 1 \<le> currentIndex p \<Longrightarrow> - 1 \<le> currentIndex (snd (PrevSong env p))"
  by (simp_all add: NewPlayer_def SetPlaylist_def NextSong_def PrevSong_def Let_def
                    PlayIndex_index_lower)

text \<open>
  C6. On a playlist of N tracks, N at least 1 (and below \<open>2^63\<close>, as every Go
  slice), with the index in [0, N): \<open>NextSong\<close> moves the index to (current + 1) mod
  N, \<open>PrevSong\<close> to (current - 1 + N) mod N, and N calls of either bring the index
  back to where it was.
\<close>

theorem next_previous_wraparound:
  assumes "playlist p \<noteq> []" and "int (length (playlist p)) < 2 ^ 63"
    and "0 \<le> currentIndex p" and "currentIndex p < int (length (playlist p))"
  shows "currentIndex (snd (NextSong env p)) = (currentIndex p + 1) mod int (length (playlist p))
         \<and> currentIndex (snd (PrevSong env p)) =
             (currentIndex p - 1 + int (length (playlist p))) mod int (length (playlist p))
         \<and> currentIndex (nextTimes env (length (playlist p)) p) = currentIndex p
         \<and> currentIndex (prevTimes env (length (playlist p)) p) = currentIndex p"
proof -
  have "(currentIndex p + int (length (playlist p))) mod int (length (playlist p)) = currentIndex p"
    using assms by simp
  moreover have "(currentIndex p - int (length (playlist p))) mod int (length (playlist p)) = currentIndex p"
    using assms by simp
  ultimately show ?thesis
    using NextSong_index[OF assms, of env] PrevSong_index[OF assms, of env]
          nextTimes_index[OF assms, of env "length (playlist p)"]
          prevTimes_index[OF assms, of env "length (playlist p)"]
    by simp
qed

theorem next_previous_wraparound_witness:
  "playlist (snd (PlayIndex examplePlayEnv 2 (SetPlaylist examplePlaylist NewPlayer))) \<noteq> []
   \<and> currentIndex (snd (PlayIndex examplePlayEnv 2 (SetPlaylist examplePlaylist NewPlayer))) = 2
   \<and> currentIndex (snd (NextSong examplePlayEnv
        (snd (PlayIndex examplePlayEnv 2 (SetPlaylist examplePlaylist NewPlayer))))) = 0
   \<and> currentIndex (snd (PrevSong examplePlayEnv
        (snd (PlayIndex examplePlayEnv 2 (SetPlaylist examplePlaylist NewPlayer))))) = 1
   \<and> currentIndex (nextTimes examplePlayEnv 3
        (snd (PlayIndex examplePlayEnv 2 (SetPlaylist examplePlaylist NewPlayer)))) = 2
   \<and> currentIndex (prevTimes examplePlayEnv 3
        (snd (PlayIndex examplePlayEnv 2 (SetPlaylist examplePlaylist NewPlayer)))) = 2"
proof -
  let ?p = "snd (PlayIndex examplePlayEnv 2 (SetPlaylist examplePlaylist NewPlayer))"
  have pl: "playlist ?p = examplePlaylist" and ci: "currentIndex ?p = 2"
    by (simp_all add: PlayIndex_def PlayFile_def stopInternal_def SetPlaylist_def NewPlayer_def
                      examplePlaylist_def examplePlayEnv_def Let_def)
  have len: "length examplePlaylist = 3" by (simp add: examplePlaylist_def)
  have h1: "playlist ?p \<noteq> []" using pl by (simp add: examplePlaylist_def)
  have h2: "int (length (playlist ?p)) < 2 ^ 63" by (simp add: pl len)
  have h3: "0 \<le> currentIndex ?p" by (simp add: ci)
  have h4: "currentIndex ?p < int (length (playlist ?p))" by (simp add: ci pl len)
  from next_previous_wraparound [OF h1 h2 h3 h4, of examplePlayEnv] h1
  show ?thesis by (simp add: ci pl len)
qed

text \<open>
  C8. On an empty playlist \<open>NextSong\<close> and \<open>PrevSong\<close> return the error and leave
  every field of the player as it was.
\<close>

theorem navigation_empty_playlist:
  "playlist p = [] \<Longrightarrow>
   NextSong env p = (Some EmptyPlaylistError, p) \<and> PrevSong env p = (Some EmptyPlaylistError, p)"
  by (simp add: NextSong_def PrevSong_def)

theorem navigation_empty_playlist_witness:
  "playlist NewPlayer = []
   \<and> NextSong examplePlayEnv NewPlayer = (Some EmptyPlaylistError, NewPlayer)
   \<and> PrevSong examplePlayEnv NewPlayer = (Some EmptyPlaylistError, NewPlayer)
   \<and> \<not> isPlaying NewPlayer \<and> streamer NewPlayer = None"
proof -
  have h: "playlist NewPlayer = []" by (simp add: NewPlayer_def)
  from navigation_empty_playlist [OF h, of examplePlayEnv] h
  show ?thesis by (simp add: NewPlayer_def)
qed

text \<open>
  C9. \<open>SetPlaylist\<close> writes the playlist and nothing else, but for the index, which
  it sets to 0 when it was negative and the new list is not empty: the stream, the
  control wrapper and the playing and paused flags stay, an index at or above 0 stays
  whatever the length of the new list, and on a player whose index is at least \<open>-1\<close>
  the only change of the index is from \<open>-1\<close> to 0 on a non-empty list.
\<close>

theorem setPlaylist_frame:
  "SetPlaylist files p =
     p\<lparr>playlist := files,
       currentIndex := (if files \<noteq> [] \<and> currentIndex p < 0 then 0 else currentIndex p)\<rparr>
   \<and> isPlaying (SetPlaylist files p) = isPlaying p
   \<and> isPaused (SetPlaylist files p) = isPaused p
   \<and> streamer (SetPlaylist files p) = streamer p
   \<and> ctrl (SetPlaylist files p) = ctrl p
   \<and> (0 \<le> currentIndex p \<longrightarrow> currentIndex (SetPlaylist files p) = currentIndex p)
   \<and> (- 1 \<le> currentIndex p \<and> currentIndex (SetPlaylist files p) \<noteq> currentIndex p \<longrightarrow>
        currentIndex p = - 1 \<and> currentIndex (SetPlaylist files p) = 0 \<and> files \<noteq> [])"
  by (auto simp: SetPlaylist_def Let_def)

theorem setPlaylist_frame_witness:
  "currentIndex (snd (PlayIndex examplePlayEnv 2 (SetPlaylist examplePlaylist NewPlayer))) = 2
   \<and> isPlaying (snd (PlayIndex examplePlayEnv 2 (SetPlaylist examplePlaylist NewPlayer)))
   \<and> currentIndex (SetPlaylist [hd examplePlaylist]
        (snd (PlayIndex examplePlayEnv 2 (SetPlaylist examplePlaylist NewPlayer)))) = 2
   \<and> isPlaying (SetPlaylist [hd examplePlaylist]
        (snd (PlayIndex examplePlayEnv 2 (SetPlaylist examplePlaylist NewPlayer))))
   \<and> streamer (SetPlaylist [hd examplePlaylist]
        (snd (PlayIndex examplePlayEnv 2 (SetPlaylist examplePlaylist NewPlayer))))
       = Some ''Music/c.mp3''
   \<and> currentIndex NewPlayer = - 1
   \<and> currentIndex (SetPlaylist examplePlaylist NewPlayer) = 0
   \<and> currentIndex (SetPlaylist [] NewPlayer) = - 1"
proof -
  let ?p = "snd (PlayIndex examplePlayEnv 2 (SetPlaylist examplePlaylist NewPlayer))"
  have ci: "currentIndex ?p = 2" and ip: "isPlaying ?p" and st: "streamer ?p = Some ''Music/c.mp3''"
    by (simp_all add: PlayIndex_def PlayFile_def stopInternal_def SetPlaylist_def NewPlayer_def
                      examplePlaylist_def examplePlayEnv_def Let_def)
  have n: "currentIndex NewPlayer = - 1" by (simp add: NewPlayer_def)
  have e: "examplePlaylist \<noteq> []" by (simp add: examplePlaylist_def)
  from setPlaylist_frame [of "[hd examplePlaylist]" ?p]
       setPlaylist_frame [of examplePlaylist NewPlayer]
       setPlaylist_frame [of "[]" NewPlayer] ci ip st n e
  show ?thesis by simp
qed

end
